theory Spec2Isabelle
  imports
    Complex_Main
    "HOL-Library.Multiset"
    "HOL-Library.Signed_Division"
    "HOL-Library.AList"
    "HOL-Library.Char_ord"
    "HOL-Library.List_Lexorder"
    "HOL-Library.Log_Nat"
begin

section \<open>float64 arithmetic\<close>

text \<open>
  A finite float64 is kept as the rational number it denotes.  Every arithmetic
  operation computes the exact result and rounds it to the nearest binary64 value, ties
  to the even significand, as IEEE 754 and Go do: a significand of 53 bits, the smallest
  exponent that of the subnormal numbers.  Infinities and NaN have no value here; no
  operand the programs below can meet reaches the largest float64.
\<close>

definition pow2 :: "int \<Rightarrow> rat" where
  "pow2 e = (if 0 \<le> e then 2 ^ nat e else 1 / 2 ^ nat (- e))"

text \<open>The exponent \<open>e\<close> with \<open>2\<^sup>e \<le> \<bar>x\<bar> < 2\<^sup>e\<^sup>+\<^sup>1\<close>, for \<open>x \<noteq> 0\<close>.\<close>

definition floorLog2 :: "rat \<Rightarrow> int" where
  "floorLog2 x =
     (case quotient_of \<bar>x\<bar> of
        (p, q) \<Rightarrow> (let e = bitlen p - bitlen q in if pow2 e \<le> \<bar>x\<bar> then e else e - 1))"

definition roundHalfEven :: "rat \<Rightarrow> int" where
  "roundHalfEven x =
     (let f = \<lfloor>x\<rfloor>; r = x - of_int f
      in if r < 1 / 2 then f else if 1 / 2 < r then f + 1 else if even f then f else f + 1)"

definition round64 :: "rat \<Rightarrow> rat" where
  "round64 x =
     (if x = 0 then 0
      else (let e = max (floorLog2 x) (- 1022); u = pow2 (e - 52)
            in of_int (roundHalfEven (x / u)) * u))"

definition f64_add :: "rat \<Rightarrow> rat \<Rightarrow> rat" where
  "f64_add x y = round64 (x + y)"

definition f64_sub :: "rat \<Rightarrow> rat \<Rightarrow> rat" where
  "f64_sub x y = round64 (x - y)"

definition f64_mul :: "rat \<Rightarrow> rat \<Rightarrow> rat" where
  "f64_mul x y = round64 (x * y)"

definition f64_div :: "rat \<Rightarrow> rat \<Rightarrow> rat" where
  "f64_div x y = round64 (x / y)"

text \<open>The conversion \<^verbatim>\<open>float64(n)\<close> of an integer.\<close>

definition f64_of_int :: "int \<Rightarrow> rat" where
  "f64_of_int n = round64 (of_int n)"

section \<open>Time values\<close>

text \<open>
  A \<^verbatim>\<open>time.Time\<close> is an instant together with the location its calendar fields are
  read in.  The instant is kept as nanoseconds since the Unix epoch, the location as its
  offset east of UTC in seconds.  \<^verbatim>\<open>After\<close>, \<^verbatim>\<open>Before\<close> and \<^verbatim>\<open>Equal\<close> compare
  instants only; \<^verbatim>\<open>Year\<close> and \<^verbatim>\<open>Month\<close> read the calendar in the value's location.
\<close>

record gotime =
  unixNanos :: int
  zoneOffset :: int

definition After :: "gotime \<Rightarrow> gotime \<Rightarrow> bool" where
  "After t u = (unixNanos u < unixNanos t)"

definition Before :: "gotime \<Rightarrow> gotime \<Rightarrow> bool" where
  "Before t u = (unixNanos t < unixNanos u)"

definition Equal :: "gotime \<Rightarrow> gotime \<Rightarrow> bool" where
  "Equal t u = (unixNanos t = unixNanos u)"

text \<open>A \<^verbatim>\<open>time.Duration\<close> is an int64 count of nanoseconds; \<^verbatim>\<open>Sub\<close> saturates.\<close>

definition minDuration :: int where
  "minDuration = - (2 ^ 63)"

definition maxDuration :: int where
  "maxDuration = 2 ^ 63 - 1"

definition Sub :: "gotime \<Rightarrow> gotime \<Rightarrow> int" where
  "Sub t u =
     (let d = unixNanos t - unixNanos u
      in if d < minDuration then minDuration
         else if maxDuration < d then maxDuration
         else d)"

text \<open>\<^verbatim>\<open>time.Since(t)\<close> is \<^verbatim>\<open>time.Now().Sub(t)\<close>; the clock reading is a parameter.\<close>

definition Since :: "gotime \<Rightarrow> gotime \<Rightarrow> int" where
  "Since now t = Sub now t"

definition Hour :: int where
  "Hour = 3600000000000"

text \<open>
  \<^verbatim>\<open>Duration.Hours\<close> splits the duration with Go's truncating integer division,
  converts both parts to float64 and adds the fraction of an hour; the constant
  \<^verbatim>\<open>60*60*1e9\<close> is a float64 without rounding.
\<close>

definition Hours :: "int \<Rightarrow> rat" where
  "Hours d =
     (let hour = d sdiv Hour; nsec = d smod Hour
      in f64_add (f64_of_int hour) (f64_div (f64_of_int nsec) (60 * 60 * 1000000000)))"

section \<open>Domain model\<close>

record Bug =
  Key :: string
  Summary :: string
  Priority :: string
  Status :: string
  IssueType :: string
  Created :: gotime
  Updated :: gotime
  Resolution :: string
  ResolutionDate :: "gotime option"
  SprintID :: string
  SprintName :: string
  StoryPoints :: rat
  BaseURL :: string

definition Age :: "gotime \<Rightarrow> Bug \<Rightarrow> int" where
  "Age now b = Since now (Updated b)"

definition AgeDays :: "gotime \<Rightarrow> Bug \<Rightarrow> rat" where
  "AgeDays now b = f64_div (Hours (Age now b)) 24"

record SLARule =
  Name :: string
  Priority :: string
  Status :: "string list"
  MaxAgeDays :: rat
  BucketName :: string
  Severity :: int

text \<open>The inner loop of \<^verbatim>\<open>Matches\<close>: is the bug's status one of the rule's statuses.\<close>

fun statusMatch :: "string list \<Rightarrow> string \<Rightarrow> bool" where
  "statusMatch [] s = False"
| "statusMatch (status # rest) s = (if status = s then True else statusMatch rest s)"

definition Matches :: "SLARule \<Rightarrow> Bug \<Rightarrow> bool" where
  "Matches r bug =
     (if SLARule.Priority r \<noteq> [] \<and> SLARule.Priority r \<noteq> Bug.Priority bug then False
      else if 0 < length (SLARule.Status r) then
        (if \<not> statusMatch (SLARule.Status r) (Bug.Status bug) then False else True)
      else True)"

definition Violates :: "gotime \<Rightarrow> SLARule \<Rightarrow> Bug \<Rightarrow> bool" where
  "Violates now r bug = (Matches r bug \<and> MaxAgeDays r < AgeDays now bug)"

record Bucket =
  Name :: string
  Severity :: int
  Bugs :: "Bug list"

record BucketGroup =
  Buckets :: "Bucket list"

text \<open>
  The search loop of \<^verbatim>\<open>AddToBucket\<close>: the first bucket with the given name receives the
  bug at the end of its list; \<open>None\<close> when the loop runs to its end without a hit.
\<close>

fun appendToNamed :: "string \<Rightarrow> Bug \<Rightarrow> Bucket list \<Rightarrow> Bucket list option" where
  "appendToNamed bucketName bug [] = None"
| "appendToNamed bucketName bug (bucket # rest) =
     (if Bucket.Name bucket = bucketName
      then Some (bucket\<lparr>Bugs := Bugs bucket @ [bug]\<rparr> # rest)
      else map_option ((#) bucket) (appendToNamed bucketName bug rest))"

definition AddToBucket :: "BucketGroup \<Rightarrow> string \<Rightarrow> int \<Rightarrow> Bug \<Rightarrow> BucketGroup" where
  "AddToBucket bg bucketName severity bug =
     (case appendToNamed bucketName bug (Buckets bg) of
        Some bs \<Rightarrow> bg\<lparr>Buckets := bs\<rparr>
      | None \<Rightarrow>
          bg\<lparr>Buckets := Buckets bg @
                [\<lparr>Bucket.Name = bucketName, Bucket.Severity = severity, Bugs = [bug]\<rparr>]\<rparr>)"

text \<open>
  \<^verbatim>\<open>Sort\<close> is an exchange sort over indices.  \<open>sortInner j m\<close> is the inner loop from
  index \<open>j\<close> up to the bound \<open>m = n - i - 1\<close>, \<open>sortOuter i n\<close> the outer loop from \<open>i\<close>.
  The source's guards keep every index inside the slice, and its signed \<open>n - 1\<close> is
  below every \<open>i\<close> when \<open>n = 0\<close>, as the truncated difference of naturals is.
\<close>

function sortInner :: "nat \<Rightarrow> nat \<Rightarrow> Bucket list \<Rightarrow> Bucket list" where
  "sortInner j m bs =
     (if j < m then
        sortInner (j + 1) m
          (if Bucket.Severity (bs ! j) > Bucket.Severity (bs ! (j + 1))
           then bs[j := bs ! (j + 1), j + 1 := bs ! j]
           else bs)
      else bs)"
  by pat_completeness auto
termination
  by (relation "measure (\<lambda>(j, m, bs). m - j)") auto

function sortOuter :: "nat \<Rightarrow> nat \<Rightarrow> Bucket list \<Rightarrow> Bucket list" where
  "sortOuter i n bs =
     (if i < n - 1 then sortOuter (i + 1) n (sortInner 0 (n - i - 1) bs) else bs)"
  by pat_completeness auto
termination
  by (relation "measure (\<lambda>(i, n, bs). n - i)") auto

definition Sort :: "BucketGroup \<Rightarrow> BucketGroup" where
  "Sort bg = bg\<lparr>Buckets := sortOuter 0 (length (Buckets bg)) (Buckets bg)\<rparr>"

section \<open>SLA evaluator\<close>

text \<open>
  The rule loop of \<^verbatim>\<open>Evaluate\<close> for one bug.  It returns the bucket group and the
  \<^verbatim>\<open>matched\<close> flag; the only \<^verbatim>\<open>break\<close> is in the branch that adds the bug to a bucket.
  The clock is read once for the whole evaluation.
\<close>

fun scanRules :: "gotime \<Rightarrow> SLARule list \<Rightarrow> Bug \<Rightarrow> BucketGroup \<Rightarrow> BucketGroup \<times> bool" where
  "scanRules now [] bug bg = (bg, False)"
| "scanRules now (rule # rules) bug bg =
     (if Matches rule bug then
        (if Violates now rule bug
         then (AddToBucket bg (BucketName rule) (SLARule.Severity rule) bug, True)
         else scanRules now rules bug bg)
      else scanRules now rules bug bg)"

fun processBugs :: "gotime \<Rightarrow> SLARule list \<Rightarrow> Bug list \<Rightarrow> BucketGroup \<Rightarrow> BucketGroup" where
  "processBugs now rules [] bg = bg"
| "processBugs now rules (bug # bugs) bg =
     processBugs now rules bugs (fst (scanRules now rules bug bg))"

definition Evaluate :: "gotime \<Rightarrow> SLARule list \<Rightarrow> Bug list \<Rightarrow> BucketGroup" where
  "Evaluate now rules bugs = Sort (processBugs now rules bugs \<lparr>Buckets = []\<rparr>)"

section \<open>Calendar\<close>

text \<open>
  The proleptic Gregorian calendar of package \<^verbatim>\<open>time\<close>, on day numbers counted from
  1970-01-01.  \<open>daysFromCivil\<close> is linear in the day of the month, so day 0 of a month is
  the last day of the month before, as \<^verbatim>\<open>time.Date\<close> normalises it.  Locations are
  fixed offsets; a location with transitions is outside the model.
\<close>

definition daysFromCivil :: "int \<Rightarrow> int \<Rightarrow> int \<Rightarrow> int" where
  "daysFromCivil y m d =
     (let y' = (if m \<le> 2 then y - 1 else y);
          era = y' div 400;
          yoe = y' - era * 400;
          doy = (153 * (if 2 < m then m - 3 else m + 9) + 2) div 5 + d - 1;
          doe = yoe * 365 + yoe div 4 - yoe div 100 + doy
      in era * 146097 + doe - 719468)"

definition civilFromDays :: "int \<Rightarrow> int \<times> int \<times> int" where
  "civilFromDays z =
     (let z' = z + 719468;
          era = z' div 146097;
          doe = z' - era * 146097;
          yoe = (doe - doe div 1460 + doe div 36524 - doe div 146096) div 365;
          doy = doe - (365 * yoe + yoe div 4 - yoe div 100);
          mp = (5 * doy + 2) div 153;
          d = doy - (153 * mp + 2) div 5 + 1;
          m = (if mp < 10 then mp + 3 else mp - 9)
      in (if m \<le> 2 then yoe + era * 400 + 1 else yoe + era * 400, m, d))"

definition UTC :: int where
  "UTC = 0"

definition localSeconds :: "gotime \<Rightarrow> int" where
  "localSeconds t = unixNanos t div 1000000000 + zoneOffset t"

definition YearOf :: "gotime \<Rightarrow> int" where
  "YearOf t = fst (civilFromDays (localSeconds t div 86400))"

definition MonthOf :: "gotime \<Rightarrow> int" where
  "MonthOf t = fst (snd (civilFromDays (localSeconds t div 86400)))"

definition DayOf :: "gotime \<Rightarrow> int" where
  "DayOf t = snd (snd (civilFromDays (localSeconds t div 86400)))"

text \<open>\<^verbatim>\<open>time.Date\<close>: the month is normalised into the year first.\<close>

definition Date :: "int \<Rightarrow> int \<Rightarrow> int \<Rightarrow> int \<Rightarrow> int \<Rightarrow> int \<Rightarrow> int \<Rightarrow> int \<Rightarrow> gotime" where
  "Date year month day hour minute sec nsec loc =
     (let y = year + (month - 1) div 12;
          m = (month - 1) mod 12 + 1;
          secs = daysFromCivil y m day * 86400 + hour * 3600 + minute * 60 + sec - loc
      in \<lparr>unixNanos = secs * 1000000000 + nsec, zoneOffset = loc\<rparr>)"

definition AddDate :: "gotime \<Rightarrow> int \<Rightarrow> int \<Rightarrow> int \<Rightarrow> gotime" where
  "AddDate t years months days =
     (let sod = localSeconds t mod 86400
      in Date (YearOf t + years) (MonthOf t + months) (DayOf t + days)
           (sod div 3600) (sod mod 3600 div 60) (sod mod 60)
           (unixNanos t mod 1000000000) (zoneOffset t))"

section \<open>Trend analyzer\<close>

record MonthlyBugStats =
  Month :: gotime
  TotalCreated :: int
  TotalResolved :: int
  TotalUnresolved :: int
  NetChange :: int
  ChangePercent :: rat
  ByPriority :: "(string \<times> int) list"

record SprintStats =
  SprintID :: string
  SprintName :: string
  BugCount :: int
  OtherCount :: int
  TotalCount :: int
  BugPercentage :: rat
  BugStoryPoints :: rat
  TotalStoryPoints :: rat
  PointsPercentage :: rat

record TrendStats =
  MonthlyData :: "MonthlyBugStats list"
  CurrentMonth :: "MonthlyBugStats option"
  LastYearSameMonth :: "MonthlyBugStats option"
  ReductionGoal :: rat
  GoalTarget :: int
  OnTrack :: bool
  SprintStats :: "SprintStats list"

record Analyzer =
  reductionGoal :: rat
  monthsToAnalyze :: int

definition NewAnalyzer :: "rat \<Rightarrow> int \<Rightarrow> Analyzer" where
  "NewAnalyzer goal months = \<lparr>reductionGoal = goal, monthsToAnalyze = months\<rparr>"

text \<open>
  A Go map is an association list with distinct keys.  Reading a key that is absent
  gives the zero value: the nil slice for a map of slices, 0 for a map of counts.
\<close>

definition sliceAt :: "('k \<times> 'v list) list \<Rightarrow> 'k \<Rightarrow> 'v list" where
  "sliceAt g k = (case map_of g k of None \<Rightarrow> [] | Some vs \<Rightarrow> vs)"

definition appendAt :: "'k \<Rightarrow> 'v \<Rightarrow> ('k \<times> 'v list) list \<Rightarrow> ('k \<times> 'v list) list" where
  "appendAt k v g = AList.update k (sliceAt g k @ [v]) g"

definition countAt :: "('k \<times> int) list \<Rightarrow> 'k \<Rightarrow> int" where
  "countAt g k = (case map_of g k of None \<Rightarrow> 0 | Some c \<Rightarrow> c)"

definition monthKey :: "Bug \<Rightarrow> gotime" where
  "monthKey bug = Date (YearOf (Created bug)) (MonthOf (Created bug)) 1 0 0 0 0 UTC"

fun groupByMonthLoop :: "Bug list \<Rightarrow> (gotime \<times> Bug list) list \<Rightarrow> (gotime \<times> Bug list) list" where
  "groupByMonthLoop [] grouped = grouped"
| "groupByMonthLoop (bug # bugs) grouped =
     groupByMonthLoop bugs (appendAt (monthKey bug) bug grouped)"

definition groupByMonth :: "Bug list \<Rightarrow> (gotime \<times> Bug list) list" where
  "groupByMonth bugs = groupByMonthLoop bugs []"

text \<open>
  \<^verbatim>\<open>math.Round\<close> rounds half away from zero; its result is a whole number, which the
  conversion to \<^verbatim>\<open>int\<close> keeps.
\<close>

definition Round :: "rat \<Rightarrow> int" where
  "Round x = (if 0 \<le> x then \<lfloor>x + 1 / 2\<rfloor> else \<lceil>x - 1 / 2\<rceil>)"

definition calculateGoalTarget :: "int \<Rightarrow> rat \<Rightarrow> int" where
  "calculateGoalTarget lastYearCount reductionPercent =
     (let reduction = f64_mul (f64_of_int lastYearCount) (f64_div reductionPercent 100);
          target = f64_sub (f64_of_int lastYearCount) reduction
      in Round target)"

fun buildPriorityBreakdownLoop :: "Bug list \<Rightarrow> (string \<times> int) list \<Rightarrow> (string \<times> int) list" where
  "buildPriorityBreakdownLoop [] breakdown = breakdown"
| "buildPriorityBreakdownLoop (bug # bugs) breakdown =
     buildPriorityBreakdownLoop bugs
       (AList.update (Bug.Priority bug) (countAt breakdown (Bug.Priority bug) + 1) breakdown)"

definition buildPriorityBreakdown :: "Bug list \<Rightarrow> (string \<times> int) list" where
  "buildPriorityBreakdown bugs = buildPriorityBreakdownLoop bugs []"

fun countUnresolvedAtDate :: "Bug list \<Rightarrow> gotime \<Rightarrow> int" where
  "countUnresolvedAtDate [] date = 0"
| "countUnresolvedAtDate (bug # bugs) date =
     (if After (Created bug) date then countUnresolvedAtDate bugs date
      else if Resolution bug = [] \<or>
              (case ResolutionDate bug of None \<Rightarrow> False | Some r \<Rightarrow> After r date)
      then countUnresolvedAtDate bugs date + 1
      else countUnresolvedAtDate bugs date)"

text \<open>
  The end of a month as both \<^verbatim>\<open>Analyze\<close> and \<^verbatim>\<open>countResolvedInMonth\<close> compute it:
  23:59:59 on day 0 of the following month.
\<close>

definition monthEndOf :: "gotime \<Rightarrow> gotime" where
  "monthEndOf month = Date (YearOf month) (MonthOf month + 1) 0 23 59 59 0 UTC"

fun countResolvedInMonth :: "Bug list \<Rightarrow> gotime \<Rightarrow> int" where
  "countResolvedInMonth [] month = 0"
| "countResolvedInMonth (bug # bugs) month =
     (case ResolutionDate bug of
        None \<Rightarrow> countResolvedInMonth bugs month
      | Some r \<Rightarrow>
          (if \<not> Before r month \<and> \<not> After r (monthEndOf month)
           then countResolvedInMonth bugs month + 1
           else countResolvedInMonth bugs month))"

text \<open>
  The loop of \<^verbatim>\<open>Analyze\<close> over the sorted months; \<open>previousCreatedCount\<close> is carried
  from one month to the next and starts at 0.
\<close>

fun monthlyLoop ::
  "Bug list \<Rightarrow> (gotime \<times> Bug list) list \<Rightarrow> int \<Rightarrow> gotime list \<Rightarrow> MonthlyBugStats list" where
  "monthlyLoop bugs grouped previousCreatedCount [] = []"
| "monthlyLoop bugs grouped previousCreatedCount (month # months) =
     (let bugsCreatedThisMonth = sliceAt grouped month;
          created = int (length bugsCreatedThisMonth);
          priorityBreakdown = buildPriorityBreakdown bugsCreatedThisMonth;
          changePercent =
            (if 0 < previousCreatedCount
             then f64_mul
                    (f64_div
                       (f64_sub (f64_of_int created) (f64_of_int previousCreatedCount))
                       (f64_of_int previousCreatedCount))
                    100
             else 0);
          monthEnd = monthEndOf month;
          unresolvedCount = countUnresolvedAtDate bugs monthEnd;
          resolvedThisMonth = countResolvedInMonth bugs month
      in \<lparr>Month = month,
          TotalCreated = created,
          TotalResolved = resolvedThisMonth,
          TotalUnresolved = unresolvedCount,
          NetChange = created - previousCreatedCount,
          ChangePercent = changePercent,
          ByPriority = priorityBreakdown\<rparr>
         # monthlyLoop bugs grouped created months)"

text \<open>The loop that looks for the current month and the same month of last year.\<close>

fun findReferenceMonths ::
  "gotime \<Rightarrow> gotime \<Rightarrow> MonthlyBugStats list \<Rightarrow>
   MonthlyBugStats option \<times> MonthlyBugStats option \<Rightarrow>
   MonthlyBugStats option \<times> MonthlyBugStats option" where
  "findReferenceMonths currentMonthStart lastYearMonthStart [] found = found"
| "findReferenceMonths currentMonthStart lastYearMonthStart (entry # rest) found =
     findReferenceMonths currentMonthStart lastYearMonthStart rest
       (if Equal (Month entry) currentMonthStart then Some entry else fst found,
        if Equal (Month entry) lastYearMonthStart then Some entry else snd found)"

text \<open>
  \<^verbatim>\<open>Analyze\<close>.  The keys of the map are sorted by \<^verbatim>\<open>Before\<close>; they are distinct, so the
  order of the result does not depend on the order the map is walked in.  The error the
  source returns beside the statistics is always nil and is left out.
\<close>

definition Analyze :: "Analyzer \<Rightarrow> gotime \<Rightarrow> Bug list \<Rightarrow> TrendStats" where
  "Analyze a now bugs =
     (let grouped = groupByMonth bugs;
          months = sort_key unixNanos (map fst grouped);
          monthlyData = monthlyLoop bugs grouped 0 months;
          currentMonthStart = Date (YearOf now) (MonthOf now) 1 0 0 0 0 UTC;
          lastYearMonthStart = AddDate currentMonthStart (- 1) 0 0;
          found = findReferenceMonths currentMonthStart lastYearMonthStart monthlyData (None, None);
          currentMonth = fst found;
          lastYearSameMonth = snd found;
          goal =
            (case (lastYearSameMonth, currentMonth) of
               (Some l, Some c) \<Rightarrow>
                 (let goalTarget = calculateGoalTarget (TotalCreated l) (reductionGoal a)
                  in (goalTarget, TotalCreated c \<le> goalTarget))
             | _ \<Rightarrow> (0, False))
      in \<lparr>MonthlyData = monthlyData,
          CurrentMonth = currentMonth,
          LastYearSameMonth = lastYearSameMonth,
          ReductionGoal = reductionGoal a,
          GoalTarget = fst goal,
          OnTrack = snd goal,
          SprintStats = []\<rparr>)"

section \<open>Sprint aggregator\<close>

text \<open>
  Package \<^verbatim>\<open>regexp\<close> is a parameter: \<open>Compile\<close> gives \<open>None\<close> for a pattern that
  does not compile and otherwise the compiled expression, kept as its \<^verbatim>\<open>MatchString\<close>;
  \<open>QuoteMeta\<close> escapes a literal.
\<close>

record regexpLib =
  Compile :: "string \<Rightarrow> (string \<Rightarrow> bool) option"
  QuoteMeta :: "string \<Rightarrow> string"

text \<open>
  The filter both sprint functions build, \<open>None\<close> for the nil \<^verbatim>\<open>nameFilter\<close>.  After a
  failed \<^verbatim>\<open>Compile\<close> the source logs a warning and goes on with the nil filter.
\<close>

definition compileNameFilter :: "regexpLib \<Rightarrow> string \<Rightarrow> string \<Rightarrow> (string \<Rightarrow> bool) option" where
  "compileNameFilter lib sprintNameBeginsWith sprintNamePattern =
     (if sprintNamePattern \<noteq> [] then
        (case Compile lib sprintNamePattern of None \<Rightarrow> None | Some re \<Rightarrow> Some re)
      else if sprintNameBeginsWith \<noteq> [] then
        (case Compile lib (''^'' @ QuoteMeta lib sprintNameBeginsWith) of
           None \<Rightarrow> None
         | Some re \<Rightarrow> Some re)
      else None)"

fun extractSprintMap :: "Bug list \<Rightarrow> (string \<times> string) list \<Rightarrow> (string \<times> string) list" where
  "extractSprintMap [] sprintMap = sprintMap"
| "extractSprintMap (bug # bugs) sprintMap =
     extractSprintMap bugs
       (if Bug.SprintID bug \<noteq> []
        then AList.update (Bug.SprintID bug) (Bug.SprintName bug) sprintMap
        else sprintMap)"

fun filterSprintIDs :: "(string \<Rightarrow> bool) option \<Rightarrow> (string \<times> string) list \<Rightarrow> string list" where
  "filterSprintIDs nameFilter [] = []"
| "filterSprintIDs nameFilter ((sprintID, sprintName) # rest) =
     (case nameFilter of
        Some re \<Rightarrow>
          (if re sprintName then sprintID # filterSprintIDs nameFilter rest
           else filterSprintIDs nameFilter rest)
      | None \<Rightarrow> sprintID # filterSprintIDs nameFilter rest)"

text \<open>
  \<^verbatim>\<open>ExtractAndFilterSprints\<close>.  Go walks a map in an unspecified order; the model walks
  it in the order the keys were first stored, and only the set of the result is meant.
\<close>

definition ExtractAndFilterSprints :: "regexpLib \<Rightarrow> Bug list \<Rightarrow> string \<Rightarrow> string \<Rightarrow> string list" where
  "ExtractAndFilterSprints lib bugs sprintNameBeginsWith sprintNamePattern =
     (let sprintMap = extractSprintMap bugs [];
          nameFilter = compileNameFilter lib sprintNameBeginsWith sprintNamePattern
      in filterSprintIDs nameFilter sprintMap)"

text \<open>The grouping loop of \<^verbatim>\<open>CalculateSprintStats\<close>, on the pair of its two maps.\<close>

fun groupSprintIssues ::
  "(string \<Rightarrow> bool) option \<Rightarrow> Bug list \<Rightarrow>
   (string \<times> Bug list) list \<times> (string \<times> string) list \<Rightarrow>
   (string \<times> Bug list) list \<times> (string \<times> string) list" where
  "groupSprintIssues nameFilter [] maps = maps"
| "groupSprintIssues nameFilter (issue # issues) maps =
     groupSprintIssues nameFilter issues
       (if Bug.SprintID issue \<noteq> [] then
          (if (case nameFilter of None \<Rightarrow> False | Some re \<Rightarrow> \<not> re (Bug.SprintName issue))
           then maps
           else (appendAt (Bug.SprintID issue) issue (fst maps),
                 AList.update (Bug.SprintID issue) (Bug.SprintName issue) (snd maps)))
        else maps)"

text \<open>
  The counting loop over the issues of one sprint, on
  \<open>(bugCount, otherCount, bugStoryPoints, totalStoryPoints)\<close>.
\<close>

fun countIssues :: "Bug list \<Rightarrow> int \<times> int \<times> rat \<times> rat \<Rightarrow> int \<times> int \<times> rat \<times> rat" where
  "countIssues [] acc = acc"
| "countIssues (issue # issues) (bugCount, otherCount, bugStoryPoints, totalStoryPoints) =
     (if IssueType issue = ''Bug''
      then countIssues issues
             (bugCount + 1, otherCount, f64_add bugStoryPoints (StoryPoints issue),
              f64_add totalStoryPoints (StoryPoints issue))
      else countIssues issues
             (bugCount, otherCount + 1, bugStoryPoints,
              f64_add totalStoryPoints (StoryPoints issue)))"

definition sprintStatsOf :: "(string \<times> string) list \<Rightarrow> string \<Rightarrow> Bug list \<Rightarrow> SprintStats" where
  "sprintStatsOf sprintNames sprintID issues =
     (case countIssues issues (0, 0, 0, 0) of
        (bugCount, otherCount, bugStoryPoints, totalStoryPoints) \<Rightarrow>
          (let totalCount = bugCount + otherCount;
               bugPercentage =
                 (if 0 < totalCount
                  then f64_mul (f64_div (f64_of_int bugCount) (f64_of_int totalCount)) 100
                  else 0);
               pointsPercentage =
                 (if 0 < totalStoryPoints
                  then f64_mul (f64_div bugStoryPoints totalStoryPoints) 100
                  else 0)
           in \<lparr>SprintID = sprintID,
               SprintName = (case map_of sprintNames sprintID of None \<Rightarrow> [] | Some n \<Rightarrow> n),
               BugCount = bugCount,
               OtherCount = otherCount,
               TotalCount = totalCount,
               BugPercentage = bugPercentage,
               BugStoryPoints = bugStoryPoints,
               TotalStoryPoints = totalStoryPoints,
               PointsPercentage = pointsPercentage\<rparr>))"

text \<open>
  \<^verbatim>\<open>CalculateSprintStats\<close>.  The final \<^verbatim>\<open>sort.Slice\<close> orders by sprint name and
  promises nothing for equal names; the model keeps them in the order of the walk.
\<close>

definition CalculateSprintStats ::
  "Analyzer \<Rightarrow> regexpLib \<Rightarrow> Bug list \<Rightarrow> string \<Rightarrow> string \<Rightarrow> SprintStats list" where
  "CalculateSprintStats a lib sprintIssues sprintNameBeginsWith sprintNamePattern =
     (let nameFilter = compileNameFilter lib sprintNameBeginsWith sprintNamePattern;
          maps = groupSprintIssues nameFilter sprintIssues ([], []);
          sprintGroups = fst maps;
          sprintNames = snd maps;
          stats = map (\<lambda>(sprintID, issues). sprintStatsOf sprintNames sprintID issues) sprintGroups
      in sort_key SprintStats.SprintName stats)"

section \<open>Notions used to state the properties\<close>

text \<open>All bugs of a bucket group, bucket by bucket.\<close>

definition allBugs :: "BucketGroup \<Rightarrow> Bug list" where
  "allBugs bg = concat (map Bugs (Buckets bg))"

text \<open>
  The invariant of the outer loop of \<^verbatim>\<open>Sort\<close>: from index \<open>length bs - i\<close> on, every
  bucket has a severity at least that of every bucket before it.
\<close>

definition tailSorted :: "nat \<Rightarrow> Bucket list \<Rightarrow> bool" where
  "tailSorted i bs \<longleftrightarrow>
     (\<forall>p q. p < q \<and> q < length bs \<and> length bs - i \<le> q \<longrightarrow>
        Bucket.Severity (bs ! p) \<le> Bucket.Severity (bs ! q))"

text \<open>
  A small configuration for concrete runs: the clock stands one day after the epoch; a
  rule for critical bugs allows three days and is followed by a catch-all rule allowing
  half a day; the bugs were last updated at the epoch or half a day after it.
\<close>

definition exNow :: gotime where
  "exNow = \<lparr>unixNanos = 86400000000000, zoneOffset = 0\<rparr>"

definition exBug :: "string \<Rightarrow> string \<Rightarrow> string \<Rightarrow> int \<Rightarrow> Bug" where
  "exBug k p st upd =
     \<lparr>Key = k, Summary = [], Priority = p, Status = st, IssueType = ''Bug'',
      Created = \<lparr>unixNanos = 0, zoneOffset = 0\<rparr>,
      Updated = \<lparr>unixNanos = upd, zoneOffset = 0\<rparr>,
      Resolution = [], ResolutionDate = None, SprintID = [], SprintName = [],
      StoryPoints = 0, BaseURL = []\<rparr>"

definition exRuleHigh :: SLARule where
  "exRuleHigh =
     \<lparr>SLARule.Name = ''critical'', Priority = ''Critical'', Status = [], MaxAgeDays = 3,
      BucketName = ''HIGH'', Severity = 2\<rparr>"

definition exRuleAll :: SLARule where
  "exRuleAll =
     \<lparr>SLARule.Name = ''any'', Priority = [], Status = [], MaxAgeDays = 1 / 2,
      BucketName = ''ALL'', Severity = 1\<rparr>"

section \<open>Matching and violating\<close>

lemma statusMatch_iff: "statusMatch sts st \<longleftrightarrow> st \<in> set sts"
  by (induction sts) auto

lemma Matches_iff:
  "Matches r bug \<longleftrightarrow>
     (SLARule.Priority r = [] \<or> SLARule.Priority r = Bug.Priority bug) \<and>
     (SLARule.Status r = [] \<or> Bug.Status bug \<in> set (SLARule.Status r))"
  by (auto simp: Matches_def statusMatch_iff)

text \<open>
  C4.  \<^verbatim>\<open>Violates\<close> holds exactly when \<^verbatim>\<open>Matches\<close> holds and the age in days, the
  float64 that \<^verbatim>\<open>AgeDays\<close> returns at the evaluation time, is strictly above
  \<open>MaxAgeDays\<close>; a bug whose age equals \<open>MaxAgeDays\<close> does not violate.  \<^verbatim>\<open>Matches\<close> in
  turn holds exactly when the rule's priority is empty or the bug's, and the rule's
  statuses are empty or contain the bug's.
\<close>

theorem Violates_strict:
  "(Violates now r bug \<longleftrightarrow> Matches r bug \<and> MaxAgeDays r < AgeDays now bug) \<and>
   (AgeDays now bug = MaxAgeDays r \<longrightarrow> \<not> Violates now r bug) \<and>
   (Matches r bug \<longleftrightarrow>
      (SLARule.Priority r = [] \<or> SLARule.Priority r = Bug.Priority bug) \<and>
      (SLARule.Status r = [] \<or> Bug.Status bug \<in> set (SLARule.Status r)))"
  using Matches_iff [of r bug] by (simp add: Violates_def)

text \<open>
  Runs of C4.  A bug updated exactly one day ago has age 1: it matches the rule for
  critical bugs with the limit set to one day and does not violate it.  A bug updated
  16416 seconds ago has the age 0.19000000000000003, one float64 above 0.19, and
  violates the same rule with the limit 0.19.
\<close>

theorem Violates_strict_witness:
  "AgeDays exNow (exBug ''A'' ''Critical'' ''Backlog'' 0) =
     MaxAgeDays (exRuleHigh\<lparr>MaxAgeDays := 1\<rparr>) \<and>
   Matches (exRuleHigh\<lparr>MaxAgeDays := 1\<rparr>) (exBug ''A'' ''Critical'' ''Backlog'' 0) \<and>
   \<not> Violates exNow (exRuleHigh\<lparr>MaxAgeDays := 1\<rparr>) (exBug ''A'' ''Critical'' ''Backlog'' 0) \<and>
   AgeDays exNow (exBug ''B'' ''Critical'' ''Backlog'' 69984000000000) =
     6845471433603155 / 36028797018963968 \<and>
   Violates exNow (exRuleHigh\<lparr>MaxAgeDays := round64 (19 / 100)\<rparr>)
     (exBug ''B'' ''Critical'' ''Backlog'' 69984000000000)"
proof -
  have age1: "AgeDays exNow (exBug ''A'' ''Critical'' ''Backlog'' 0) = 1"
    by code_simp
  have age2: "AgeDays exNow (exBug ''B'' ''Critical'' ''Backlog'' 69984000000000) =
      6845471433603155 / 36028797018963968"
    by code_simp
  have lim: "round64 (19 / 100) = 3422735716801577 / 18014398509481984"
    by code_simp
  have m: "Matches (exRuleHigh\<lparr>MaxAgeDays := 1\<rparr>) (exBug ''A'' ''Critical'' ''Backlog'' 0)"
    "Matches (exRuleHigh\<lparr>MaxAgeDays := round64 (19 / 100)\<rparr>)
       (exBug ''B'' ''Critical'' ''Backlog'' 69984000000000)"
    by code_simp+
  have eq1: "AgeDays exNow (exBug ''A'' ''Critical'' ''Backlog'' 0) =
      MaxAgeDays (exRuleHigh\<lparr>MaxAgeDays := 1\<rparr>)"
    by (simp add: age1)
  have v1: "\<not> Violates exNow (exRuleHigh\<lparr>MaxAgeDays := 1\<rparr>)
      (exBug ''A'' ''Critical'' ''Backlog'' 0)"
    using Violates_strict [of exNow "exRuleHigh\<lparr>MaxAgeDays := 1\<rparr>"
        "exBug ''A'' ''Critical'' ''Backlog'' 0"] eq1
    by blast
  have lt: "MaxAgeDays (exRuleHigh\<lparr>MaxAgeDays := round64 (19 / 100)\<rparr>) <
      AgeDays exNow (exBug ''B'' ''Critical'' ''Backlog'' 69984000000000)"
    unfolding age2 by (simp add: lim)
  have v2: "Violates exNow (exRuleHigh\<lparr>MaxAgeDays := round64 (19 / 100)\<rparr>)
      (exBug ''B'' ''Critical'' ''Backlog'' 69984000000000)"
    using Violates_strict [of exNow "exRuleHigh\<lparr>MaxAgeDays := round64 (19 / 100)\<rparr>"
        "exBug ''B'' ''Critical'' ''Backlog'' 69984000000000"] m(2) lt
    by blast
  from eq1 m(1) v1 age2 v2 show ?thesis
    by blast
qed

section \<open>Sorting the buckets\<close>

declare sortInner.simps [simp del] sortOuter.simps [simp del]

lemma swap_in_append:
  "length as = j \<Longrightarrow> (as @ x # y # cs)[j := y, j + 1 := x] = as @ y # x # cs"
  by (simp add: list_update_append)

lemma adjacent_decomp:
  assumes "j + 1 < length bs"
  shows "bs = take j bs @ bs ! j # bs ! (j + 1) # drop (j + 2) bs"
proof -
  from assms have j: "j < length bs" by simp
  have "drop j bs = bs ! j # bs ! (j + 1) # drop (j + 2) bs"
    using assms j by (metis Cons_nth_drop_Suc Suc_eq_plus1 add_2_eq_Suc')
  then show ?thesis by (metis append_take_drop_id)
qed

lemma swap_adjacent_decomp:
  assumes "j + 1 < length bs"
  shows "bs[j := bs ! (j + 1), j + 1 := bs ! j] = take j bs @ bs ! (j + 1) # bs ! j # drop (j + 2) bs"
proof -
  have len: "length (take j bs) = j" using assms by simp
  have "bs[j := bs ! (j + 1), j + 1 := bs ! j] =
        (take j bs @ bs ! j # bs ! (j + 1) # drop (j + 2) bs)[j := bs ! (j + 1), j + 1 := bs ! j]"
    using adjacent_decomp[OF assms] by simp
  also have "\<dots> = take j bs @ bs ! (j + 1) # bs ! j # drop (j + 2) bs"
    by (rule swap_in_append[OF len])
  finally show ?thesis .
qed

lemma sort_key_swap_adjacent:
  "f x \<noteq> f y \<Longrightarrow> sort_key f (as @ x # y # cs) = sort_key f (as @ y # x # cs)"
  by (simp add: sort_key_def insort_key_left_comm)

lemma sortInner_length: "length (sortInner j m bs) = length bs"
proof (induction j m bs rule: sortInner.induct)
  case (1 j m bs)
  show ?case
    by (subst sortInner.simps) (use 1 in \<open>auto split: if_splits\<close>)
qed

lemma sort_key_swap_step:
  assumes "j + 1 < length bs" "Bucket.Severity (bs ! j) > Bucket.Severity (bs ! (j + 1))"
  shows "sort_key Bucket.Severity (bs[j := bs ! (j + 1), j + 1 := bs ! j]) = sort_key Bucket.Severity bs"
proof -
  have ne: "Bucket.Severity (bs ! (j + 1)) \<noteq> Bucket.Severity (bs ! j)" using assms(2) by simp
  have "sort_key Bucket.Severity (bs[j := bs ! (j + 1), j + 1 := bs ! j]) =
        sort_key Bucket.Severity (take j bs @ bs ! (j + 1) # bs ! j # drop (j + 2) bs)"
    by (simp only: swap_adjacent_decomp[OF assms(1)])
  also have "\<dots> = sort_key Bucket.Severity (take j bs @ bs ! j # bs ! (j + 1) # drop (j + 2) bs)"
    using ne by (rule sort_key_swap_adjacent[where f = Bucket.Severity])
  also have "\<dots> = sort_key Bucket.Severity bs"
    using adjacent_decomp[OF assms(1)] by simp
  finally show ?thesis .
qed

lemma sortInner_sort_key:
  "m < length bs \<Longrightarrow> sort_key Bucket.Severity (sortInner j m bs) = sort_key Bucket.Severity bs"
proof (induction j m bs rule: sortInner.induct)
  case (1 j m bs)
  show ?case
  proof (cases "j < m")
    case False
    then show ?thesis by (subst sortInner.simps) simp
  next
    case True
    then have j1: "j + 1 < length bs" using "1.prems" by simp
    show ?thesis
    proof (cases "Bucket.Severity (bs ! j) > Bucket.Severity (bs ! (j + 1))")
      case sw: True
      have "sort_key Bucket.Severity (sortInner j m bs) =
            sort_key Bucket.Severity (sortInner (j + 1) m (bs[j := bs ! (j + 1), j + 1 := bs ! j]))"
        by (subst sortInner.simps) (use True sw in simp)
      also have "\<dots> = sort_key Bucket.Severity (bs[j := bs ! (j + 1), j + 1 := bs ! j])"
        using "1.IH"[OF True] "1.prems" sw by simp
      also have "\<dots> = sort_key Bucket.Severity bs"
        by (rule sort_key_swap_step[OF j1 sw])
      finally show ?thesis .
    next
      case nsw: False
      have "sort_key Bucket.Severity (sortInner j m bs) =
            sort_key Bucket.Severity (sortInner (j + 1) m bs)"
        by (subst sortInner.simps) (use True nsw in simp)
      also have "\<dots> = sort_key Bucket.Severity bs"
        using "1.IH"[OF True] "1.prems" nsw by simp
      finally show ?thesis .
    qed
  qed
qed

lemma sortInner_nth_above:
  "m < k \<Longrightarrow> sortInner j m bs ! k = bs ! k"
proof (induction j m bs rule: sortInner.induct)
  case (1 j m bs)
  show ?case
  proof (cases "j < m")
    case False
    then show ?thesis by (subst sortInner.simps) simp
  next
    case True
    then show ?thesis
      by (subst sortInner.simps) (use 1 in \<open>auto\<close>)
  qed
qed

lemma sortInner_nth_from:
  "m < length bs \<Longrightarrow> k \<le> m \<Longrightarrow> \<exists>k'\<le>m. sortInner j m bs ! k = bs ! k'"
proof (induction j m bs arbitrary: k rule: sortInner.induct)
  case (1 j m bs)
  show ?case
  proof (cases "j < m")
    case False
    then show ?thesis using "1.prems" by (subst sortInner.simps) auto
  next
    case True
    let ?bs' = "if Bucket.Severity (bs ! j) > Bucket.Severity (bs ! (j + 1))
                then bs[j := bs ! (j + 1), j + 1 := bs ! j] else bs"
    have len: "m < length ?bs'" using "1.prems" by simp
    from "1.IH"[OF True len "1.prems"(2)] obtain k' where
      k': "k' \<le> m" "sortInner (j + 1) m ?bs' ! k = ?bs' ! k'" by blast
    have step: "sortInner j m bs = sortInner (j + 1) m ?bs'"
      by (subst sortInner.simps) (simp add: True)
    have "\<exists>k''\<le>m. ?bs' ! k' = bs ! k''"
    proof (cases "Bucket.Severity (bs ! j) > Bucket.Severity (bs ! (j + 1))")
      case False
      then show ?thesis using k'(1) by auto
    next
      case sw: True
      consider "k' = j" | "k' = j + 1" | "k' \<noteq> j" "k' \<noteq> j + 1" by blast
      then show ?thesis
      proof cases
        case 1
        then have "?bs' ! k' = bs ! (j + 1)" using sw True "1.prems" by simp
        then show ?thesis using True by (intro exI[of _ "j + 1"]) simp
      next
        case 2
        then have "?bs' ! k' = bs ! j" using sw True "1.prems" by simp
        then show ?thesis using True by (intro exI[of _ j]) simp
      next
        case 3
        then have "?bs' ! k' = bs ! k'" using sw by simp
        then show ?thesis using k'(1) by blast
      qed
    qed
    then show ?thesis using k'(2) step by auto
  qed
qed

lemma sortInner_max:
  "m < length bs \<Longrightarrow> j \<le> m \<Longrightarrow>
   (\<forall>k<j. Bucket.Severity (bs ! k) \<le> Bucket.Severity (bs ! j)) \<Longrightarrow>
   k < m \<Longrightarrow>
   Bucket.Severity (sortInner j m bs ! k) \<le> Bucket.Severity (sortInner j m bs ! m)"
proof (induction j m bs rule: sortInner.induct)
  case (1 j m bs)
  show ?case
  proof (cases "j < m")
    case False
    then have "j = m" using "1.prems" by simp
    then show ?thesis using "1.prems" by (subst (1 2) sortInner.simps) simp
  next
    case True
    let ?bs' = "if Bucket.Severity (bs ! j) > Bucket.Severity (bs ! (j + 1))
                then bs[j := bs ! (j + 1), j + 1 := bs ! j] else bs"
    have step: "sortInner j m bs = sortInner (j + 1) m ?bs'"
      by (subst sortInner.simps) (simp add: True)
    have len: "m < length ?bs'" using "1.prems" by simp
    have j1: "j + 1 \<le> m" using True by simp
    have inv: "\<forall>k<j + 1. Bucket.Severity (?bs' ! k) \<le> Bucket.Severity (?bs' ! (j + 1))"
    proof (intro allI impI)
      fix k assume k: "k < j + 1"
      show "Bucket.Severity (?bs' ! k) \<le> Bucket.Severity (?bs' ! (j + 1))"
      proof (cases "k = j")
        case True
        then show ?thesis using \<open>j < m\<close> "1.prems"(1) by auto
      next
        case False
        then have kj: "k < j" using k by simp
        then have "Bucket.Severity (bs ! k) \<le> Bucket.Severity (bs ! j)" using "1.prems"(3) by simp
        then show ?thesis using kj \<open>j < m\<close> "1.prems"(1) by auto
      qed
    qed
    show ?thesis
      unfolding step using "1.IH"[OF True len j1 inv "1.prems"(4)] .
  qed
qed


lemma sortOuter_length: "length (sortOuter i n bs) = length bs"
proof (induction i n bs rule: sortOuter.induct)
  case (1 i n bs)
  show ?case
    by (subst sortOuter.simps) (use 1 in \<open>auto simp: sortInner_length\<close>)
qed

lemma sortOuter_sort_key:
  "length bs = n \<Longrightarrow> sort_key Bucket.Severity (sortOuter i n bs) = sort_key Bucket.Severity bs"
proof (induction i n bs rule: sortOuter.induct)
  case (1 i n bs)
  show ?case
  proof (cases "i < n - 1")
    case False
    then show ?thesis by (subst sortOuter.simps) simp
  next
    case True
    have m: "n - i - 1 < length bs" using True "1.prems" by simp
    have "sort_key Bucket.Severity (sortOuter i n bs) =
          sort_key Bucket.Severity (sortOuter (i + 1) n (sortInner 0 (n - i - 1) bs))"
      by (subst sortOuter.simps) (use True in simp)
    also have "\<dots> = sort_key Bucket.Severity (sortInner 0 (n - i - 1) bs)"
      using "1.IH"[OF True] "1.prems" by (simp add: sortInner_length)
    also have "\<dots> = sort_key Bucket.Severity bs"
      by (rule sortInner_sort_key[OF m])
    finally show ?thesis .
  qed
qed

lemma tailSorted_step:
  assumes "i < length bs - 1" "tailSorted i bs"
  shows "tailSorted (i + 1) (sortInner 0 (length bs - i - 1) bs)"
  unfolding tailSorted_def sortInner_length
proof (intro allI impI, elim conjE)
  let ?m = "length bs - i - 1"
  let ?bs' = "sortInner 0 ?m bs"
  fix p q assume pq: "p < q" "q < length bs" "length bs - (i + 1) \<le> q"
  have m: "?m < length bs" using assms(1) by simp
  show "Bucket.Severity (?bs' ! p) \<le> Bucket.Severity (?bs' ! q)"
  proof (cases "q = ?m")
    case True
    have "Bucket.Severity (?bs' ! p) \<le> Bucket.Severity (?bs' ! ?m)"
      by (rule sortInner_max[OF m]) (use pq True in auto)
    then show ?thesis using True by simp
  next
    case False
    then have q: "?m < q" using pq(3) by simp
    then have q': "?bs' ! q = bs ! q" by (rule sortInner_nth_above)
    have qi: "length bs - i \<le> q" using q by simp
    show ?thesis
    proof (cases "p \<le> ?m")
      case True
      from sortInner_nth_from[OF m True] obtain p' where p': "p' \<le> ?m" "?bs' ! p = bs ! p'"
        by blast
      have "p' < q" using p'(1) q by simp
      then have "Bucket.Severity (bs ! p') \<le> Bucket.Severity (bs ! q)"
        using assms(2) pq(2) qi unfolding tailSorted_def by blast
      then show ?thesis using p'(2) q' by simp
    next
      case False
      then have "?bs' ! p = bs ! p" by (intro sortInner_nth_above) simp
      moreover have "Bucket.Severity (bs ! p) \<le> Bucket.Severity (bs ! q)"
        using assms(2) pq(1,2) qi unfolding tailSorted_def by blast
      ultimately show ?thesis using q' by simp
    qed
  qed
qed

lemma sortOuter_sorted:
  "length bs = n \<Longrightarrow> i \<le> n - 1 \<Longrightarrow> tailSorted i bs \<Longrightarrow>
   sorted (map Bucket.Severity (sortOuter i n bs))"
proof (induction i n bs rule: sortOuter.induct)
  case (1 i n bs)
  show ?case
  proof (cases "i < n - 1")
    case False
    then have i: "i = n - 1" using "1.prems" by simp
    have "sorted (map Bucket.Severity bs)"
      unfolding sorted_iff_nth_mono_less
    proof (intro allI impI)
      fix p q assume "p < q" "q < length (map Bucket.Severity bs)"
      then have "p < q" "q < length bs" "length bs - i \<le> q" using i "1.prems"(1) by auto
      then have "Bucket.Severity (bs ! p) \<le> Bucket.Severity (bs ! q)"
        using "1.prems"(3) unfolding tailSorted_def by blast
      then show "map Bucket.Severity bs ! p \<le> map Bucket.Severity bs ! q"
        using \<open>p < q\<close> \<open>q < length bs\<close> by simp
    qed
    then show ?thesis using False by (subst sortOuter.simps) simp
  next
    case True
    have step: "sortOuter i n bs = sortOuter (i + 1) n (sortInner 0 (n - i - 1) bs)"
      by (subst sortOuter.simps) (use True in simp)
    have ts: "tailSorted (i + 1) (sortInner 0 (n - i - 1) bs)"
      using tailSorted_step[of i bs] True "1.prems" by simp
    show ?thesis
      unfolding step
      by (rule "1.IH"[OF True _ _ ts]) (use True "1.prems" in \<open>auto simp: sortInner_length\<close>)
  qed
qed

lemma sortOuter_is_sort_key:
  "sortOuter 0 (length bs) bs = sort_key Bucket.Severity bs"
proof -
  have "tailSorted 0 bs" by (simp add: tailSorted_def)
  then have "sorted (map Bucket.Severity (sortOuter 0 (length bs) bs))"
    by (intro sortOuter_sorted) simp_all
  then have "sort_key Bucket.Severity (sortOuter 0 (length bs) bs) = sortOuter 0 (length bs) bs"
    by (rule sort_key_id_if_sorted)
  then show ?thesis by (simp add: sortOuter_sort_key)
qed


text \<open>
  C5.  \<^verbatim>\<open>Sort\<close> gives the buckets in the order of a stable sort by severity: the
  severities are non-decreasing and buckets of one severity keep their order.
\<close>

theorem Sort_stable:
  "Buckets (Sort bg) = sort_key Bucket.Severity (Buckets bg) \<and>
   sorted (map Bucket.Severity (Buckets (Sort bg))) \<and>
   filter (\<lambda>b. Bucket.Severity b = k) (Buckets (Sort bg)) =
     filter (\<lambda>b. Bucket.Severity b = k) (Buckets bg)"
  by (simp add: Sort_def sortOuter_is_sort_key sort_key_stable)

section \<open>Adding to a bucket\<close>

lemma appendToNamed_None: "appendToNamed n b bs = None \<longleftrightarrow> n \<notin> Bucket.Name ` set bs"
  by (induction bs) auto

lemma appendToNamed_Some:
  "n \<notin> Bucket.Name ` set pre \<Longrightarrow> Bucket.Name b = n \<Longrightarrow>
   appendToNamed n bug (pre @ b # post) = Some (pre @ b\<lparr>Bugs := Bugs b @ [bug]\<rparr> # post)"
  by (induction pre) auto

lemma appendToNamed_split:
  "appendToNamed n bug bs = Some bs' \<Longrightarrow>
   \<exists>pre b post. bs = pre @ b # post \<and> n \<notin> Bucket.Name ` set pre \<and> Bucket.Name b = n \<and>
      bs' = pre @ b\<lparr>Bugs := Bugs b @ [bug]\<rparr> # post"
proof (induction bs arbitrary: bs')
  case Nil then show ?case by simp
next
  case (Cons a bs)
  show ?case
  proof (cases "Bucket.Name a = n")
    case True
    with Cons.prems have "bs' = a\<lparr>Bugs := Bugs a @ [bug]\<rparr> # bs" by simp
    with True show ?thesis by (intro exI[of _ "[]"] exI[of _ a] exI[of _ bs]) simp
  next
    case False
    with Cons.prems obtain r where r: "appendToNamed n bug bs = Some r" "bs' = a # r"
      by auto
    from Cons.IH[OF r(1)] obtain pre b post where
      "bs = pre @ b # post" "n \<notin> Bucket.Name ` set pre" "Bucket.Name b = n"
      "r = pre @ b\<lparr>Bugs := Bugs b @ [bug]\<rparr> # post" by blast
    with False r(2) show ?thesis
      by (intro exI[of _ "a # pre"] exI[of _ b] exI[of _ post]) auto
  qed
qed

lemma mset_allBugs_AddToBucket:
  "mset (allBugs (AddToBucket bg n s bug)) = add_mset bug (mset (allBugs bg))"
proof (cases "appendToNamed n bug (Buckets bg)")
  case None
  then show ?thesis by (simp add: AddToBucket_def allBugs_def)
next
  case (Some bs')
  from appendToNamed_split[OF Some] obtain pre b post where
    "Buckets bg = pre @ b # post" "bs' = pre @ b\<lparr>Bugs := Bugs b @ [bug]\<rparr> # post" by blast
  with Some show ?thesis by (simp add: AddToBucket_def allBugs_def)
qed

lemma scanRules_find:
  "fst (scanRules now rules bug bg) =
     (case find (\<lambda>r. Violates now r bug) rules of
        None \<Rightarrow> bg
      | Some r \<Rightarrow> AddToBucket bg (BucketName r) (SLARule.Severity r) bug)"
  by (induction rules) (auto simp: Violates_def)

lemma mset_allBugs_processBugs:
  "mset (allBugs (processBugs now rules bugs bg)) =
     mset (allBugs bg) + mset (filter (\<lambda>b. find (\<lambda>r. Violates now r b) rules \<noteq> None) bugs)"
proof (induction bugs arbitrary: bg)
  case Nil then show ?case by simp
next
  case (Cons b bugs)
  show ?case
    by (cases "find (\<lambda>r. Violates now r b) rules")
       (simp_all add: Cons.IH scanRules_find mset_allBugs_AddToBucket)
qed


lemma Buckets_AddToBucket_cases:
  obtains (existing) pre b post where
      "Buckets bg = pre @ b # post" "n \<notin> Bucket.Name ` set pre" "Bucket.Name b = n"
      "Buckets (AddToBucket bg n s bug) = pre @ b\<lparr>Bugs := Bugs b @ [bug]\<rparr> # post"
  | (new) "n \<notin> Bucket.Name ` set (Buckets bg)"
      "Buckets (AddToBucket bg n s bug) =
         Buckets bg @ [\<lparr>Bucket.Name = n, Bucket.Severity = s, Bugs = [bug]\<rparr>]"
proof (cases "appendToNamed n bug (Buckets bg)")
  case None
  then have "n \<notin> Bucket.Name ` set (Buckets bg)"
    by (simp add: appendToNamed_None)
  moreover have "Buckets (AddToBucket bg n s bug) =
         Buckets bg @ [\<lparr>Bucket.Name = n, Bucket.Severity = s, Bugs = [bug]\<rparr>]"
    using None by (simp add: AddToBucket_def)
  ultimately show ?thesis by (rule new)
next
  case (Some bs')
  from appendToNamed_split[OF Some] obtain pre b post where
    "Buckets bg = pre @ b # post" "n \<notin> Bucket.Name ` set pre" "Bucket.Name b = n"
    "bs' = pre @ b\<lparr>Bugs := Bugs b @ [bug]\<rparr> # post" by blast
  moreover have "Buckets (AddToBucket bg n s bug) = bs'"
    using Some by (simp add: AddToBucket_def)
  ultimately show ?thesis using existing[of pre b post] by simp
qed

lemma set_Buckets_Sort: "set (Buckets (Sort bg)) = set (Buckets bg)"
  by (simp add: Sort_def sortOuter_is_sort_key)

lemma mset_Buckets_Sort: "mset (Buckets (Sort bg)) = mset (Buckets bg)"
  by (simp add: Sort_def sortOuter_is_sort_key)

lemma mset_concat_cong:
  assumes "mset xs = mset ys"
  shows "mset (concat (map f xs)) = mset (concat (map f ys))"
proof -
  have "mset (concat (map f xs)) = sum_mset (image_mset (\<lambda>x. mset (f x)) (mset xs))"
    by (simp add: mset_concat comp_def flip: sum_mset_sum_list)
  also have "\<dots> = sum_mset (image_mset (\<lambda>x. mset (f x)) (mset ys))"
    by (simp only: assms)
  also have "\<dots> = mset (concat (map f ys))"
    by (simp add: mset_concat comp_def flip: sum_mset_sum_list)
  finally show ?thesis .
qed

lemma distinct_sub:
  assumes "mset xs \<subseteq># mset ys" "distinct ys"
  shows "distinct xs"
proof -
  have "count (mset xs) a \<le> count (mset ys) a" for a
    using assms(1) by (rule mset_subset_eq_count)
  moreover have "count (mset ys) a \<le> 1" for a
    using assms(2) by (auto simp: distinct_count_atmost_1)
  ultimately have "count (mset xs) a \<le> 1" for a
    using le_trans by blast
  then show ?thesis
    unfolding distinct_count_atmost_1[of xs]
    by (metis count_mset_0_iff le_antisym One_nat_def Suc_leI count_greater_zero_iff set_mset_mset)
qed

lemma mset_allBugs_Sort: "mset (allBugs (Sort bg)) = mset (allBugs bg)"
  unfolding allBugs_def by (rule mset_concat_cong[OF mset_Buckets_Sort])

lemma mset_allBugs_Evaluate:
  "mset (allBugs (Evaluate now rules bugs)) =
     mset (filter (\<lambda>b. find (\<lambda>r. Violates now r b) rules \<noteq> None) bugs)"
proof -
  have "allBugs \<lparr>Buckets = []\<rparr> = []" by (simp add: allBugs_def)
  then show ?thesis
    by (simp add: Evaluate_def mset_allBugs_Sort mset_allBugs_processBugs)
qed


text \<open>
  C6.  When a bucket of the given name exists, \<^verbatim>\<open>AddToBucket\<close> appends the bug to the
  end of the first such bucket and changes nothing else: names and severities stay as
  they are, whatever severity is passed.  When no bucket has the name, one new bucket
  with the given name and severity, holding the bug alone, is appended to the group.
\<close>

theorem AddToBucket_existing_or_new:
  "(Buckets bg = pre @ b # post \<and> bucketName \<notin> Bucket.Name ` set pre \<and> Bucket.Name b = bucketName \<longrightarrow>
      Buckets (AddToBucket bg bucketName severity bug) = pre @ b\<lparr>Bugs := Bugs b @ [bug]\<rparr> # post) \<and>
   (bucketName \<notin> Bucket.Name ` set (Buckets bg) \<longrightarrow>
      Buckets (AddToBucket bg bucketName severity bug) =
        Buckets bg @ [\<lparr>Bucket.Name = bucketName, Bucket.Severity = severity, Bugs = [bug]\<rparr>]) \<and>
   (bucketName \<in> Bucket.Name ` set (Buckets bg) \<longrightarrow>
      map Bucket.Severity (Buckets (AddToBucket bg bucketName severity bug)) =
        map Bucket.Severity (Buckets bg) \<and>
      map Bucket.Name (Buckets (AddToBucket bg bucketName severity bug)) =
        map Bucket.Name (Buckets bg))"
proof (intro conjI impI)
  assume a: "Buckets bg = pre @ b # post \<and> bucketName \<notin> Bucket.Name ` set pre \<and> Bucket.Name b = bucketName"
  then show "Buckets (AddToBucket bg bucketName severity bug) = pre @ b\<lparr>Bugs := Bugs b @ [bug]\<rparr> # post"
    by (simp add: AddToBucket_def appendToNamed_Some)
next
  assume "bucketName \<notin> Bucket.Name ` set (Buckets bg)"
  then have "appendToNamed bucketName bug (Buckets bg) = None"
    by (simp add: appendToNamed_None)
  then show "Buckets (AddToBucket bg bucketName severity bug) =
        Buckets bg @ [\<lparr>Bucket.Name = bucketName, Bucket.Severity = severity, Bugs = [bug]\<rparr>]"
    by (simp add: AddToBucket_def)
next
  assume a: "bucketName \<in> Bucket.Name ` set (Buckets bg)"
  show "map Bucket.Severity (Buckets (AddToBucket bg bucketName severity bug)) =
        map Bucket.Severity (Buckets bg)"
    by (rule Buckets_AddToBucket_cases[of bg bucketName severity bug]) (use a in auto)
  show "map Bucket.Name (Buckets (AddToBucket bg bucketName severity bug)) =
        map Bucket.Name (Buckets bg)"
    by (rule Buckets_AddToBucket_cases[of bg bucketName severity bug]) (use a in auto)
qed

text \<open>
  A run of C6: adding to the existing bucket URGENT with severity 5 leaves its severity
  at 1; the same call on a group without URGENT creates it with severity 5.
\<close>

theorem AddToBucket_existing_or_new_witness:
  "Buckets (AddToBucket
      \<lparr>Buckets = [\<lparr>Bucket.Name = ''HIGH'', Severity = 2, Bugs = []\<rparr>,
                  \<lparr>Bucket.Name = ''URGENT'', Severity = 1, Bugs = [exBug ''A'' ''Critical'' ''Backlog'' 0]\<rparr>]\<rparr>
      ''URGENT'' 5 (exBug ''B'' ''Low'' ''Backlog'' 0)) =
     [\<lparr>Bucket.Name = ''HIGH'', Severity = 2, Bugs = []\<rparr>,
      \<lparr>Bucket.Name = ''URGENT'', Severity = 1,
        Bugs = [exBug ''A'' ''Critical'' ''Backlog'' 0, exBug ''B'' ''Low'' ''Backlog'' 0]\<rparr>] \<and>
   Buckets (AddToBucket
      \<lparr>Buckets = [\<lparr>Bucket.Name = ''HIGH'', Severity = 2, Bugs = []\<rparr>]\<rparr>
      ''URGENT'' 5 (exBug ''B'' ''Low'' ''Backlog'' 0)) =
     [\<lparr>Bucket.Name = ''HIGH'', Severity = 2, Bugs = []\<rparr>,
      \<lparr>Bucket.Name = ''URGENT'', Severity = 5, Bugs = [exBug ''B'' ''Low'' ''Backlog'' 0]\<rparr>] \<and>
   map Bucket.Severity (Buckets (AddToBucket
      \<lparr>Buckets = [\<lparr>Bucket.Name = ''HIGH'', Severity = 2, Bugs = []\<rparr>,
                  \<lparr>Bucket.Name = ''URGENT'', Severity = 1, Bugs = [exBug ''A'' ''Critical'' ''Backlog'' 0]\<rparr>]\<rparr>
      ''URGENT'' 5 (exBug ''B'' ''Low'' ''Backlog'' 0))) = [2, 1]"
  using
    AddToBucket_existing_or_new
      [of "\<lparr>Buckets = [\<lparr>Bucket.Name = ''HIGH'', Severity = 2, Bugs = []\<rparr>,
                  \<lparr>Bucket.Name = ''URGENT'', Severity = 1, Bugs = [exBug ''A'' ''Critical'' ''Backlog'' 0]\<rparr>]\<rparr>"
          "[\<lparr>Bucket.Name = ''HIGH'', Severity = 2, Bugs = []\<rparr>]"
          "\<lparr>Bucket.Name = ''URGENT'', Severity = 1, Bugs = [exBug ''A'' ''Critical'' ''Backlog'' 0]\<rparr>"
          "[]" "''URGENT''" 5 "exBug ''B'' ''Low'' ''Backlog'' 0"]
    AddToBucket_existing_or_new
      [of "\<lparr>Buckets = [\<lparr>Bucket.Name = ''HIGH'', Severity = 2, Bugs = []\<rparr>]\<rparr>"
          "[]" "\<lparr>Bucket.Name = ''HIGH'', Severity = 2, Bugs = []\<rparr>" "[]"
          "''URGENT''" 5 "exBug ''B'' ''Low'' ''Backlog'' 0"]
  by simp

section \<open>Evaluation\<close>

text \<open>
  C3.  The bugs of all buckets of the result, taken together with multiplicity, are
  among the evaluated bugs: each bug of the input is added at most once.  When the input
  lists no bug twice, no bug occurs twice in the buckets, neither in two buckets nor
  twice in one.
\<close>

theorem Evaluate_exclusive:
  "mset (allBugs (Evaluate now rules bugs)) \<subseteq># mset bugs \<and>
   (distinct bugs \<longrightarrow> distinct (allBugs (Evaluate now rules bugs)))"
proof -
  have sub: "mset (allBugs (Evaluate now rules bugs)) \<subseteq># mset bugs"
    unfolding mset_allBugs_Evaluate by simp
  then show ?thesis using distinct_sub by blast
qed

text \<open>A run of C3 on two bugs that both end in the same bucket.\<close>

theorem Evaluate_exclusive_witness:
  "distinct [exBug ''A'' ''Critical'' ''Backlog'' 0, exBug ''B'' ''Low'' ''Backlog'' 0] \<and>
   distinct (allBugs (Evaluate exNow [exRuleAll, exRuleHigh]
      [exBug ''A'' ''Critical'' ''Backlog'' 0, exBug ''B'' ''Low'' ''Backlog'' 0]))"
proof -
  have d: "distinct [exBug ''A'' ''Critical'' ''Backlog'' 0, exBug ''B'' ''Low'' ''Backlog'' 0]"
    by (simp add: exBug_def)
  then show ?thesis
    using Evaluate_exclusive [of exNow "[exRuleAll, exRuleHigh]"
      "[exBug ''A'' ''Critical'' ''Backlog'' 0, exBug ''B'' ''Low'' ''Backlog'' 0]"]
    by blast
qed

text \<open>
  C1.  A run of \<^verbatim>\<open>Evaluate\<close> on which the first rule that matches does not decide.
  The critical bug is one day old; the first rule matches it and is not violated; the
  scan goes on to the catch-all rule, which matches and is violated; the bug ends in the
  catch-all rule's bucket.
\<close>

theorem Evaluate_first_match_failing_input:
  "Matches exRuleHigh (exBug ''A'' ''Critical'' ''Backlog'' 0) \<and>
   \<not> Violates exNow exRuleHigh (exBug ''A'' ''Critical'' ''Backlog'' 0) \<and>
   Matches exRuleAll (exBug ''A'' ''Critical'' ''Backlog'' 0) \<and>
   Violates exNow exRuleAll (exBug ''A'' ''Critical'' ''Backlog'' 0) \<and>
   Buckets (Evaluate exNow [exRuleHigh, exRuleAll] [exBug ''A'' ''Critical'' ''Backlog'' 0]) =
     [\<lparr>Bucket.Name = ''ALL'', Severity = 1, Bugs = [exBug ''A'' ''Critical'' ''Backlog'' 0]\<rparr>]"
  by code_simp

end
